theory Spec2Isabelle
  imports Complex_Main
begin

section \<open>JavaScript values\<close>

text \<open>
  A JavaScript number that is not NaN or an infinity is modelled by a real: the rounding of
  IEEE doubles and the sign of zero are not modelled. NaN and the two infinities are kept,
  because \<^verbatim>\<open>Number(x) || 0\<close> treats NaN specially and lets an infinity through.
\<close>

datatype jsnum = Fin real | PosInf | NegInf | NaN

text \<open>
  A JavaScript string is its sequence of UTF-16 code units. \<open>ascii\<close> turns a literal
  into the string of its characters.
\<close>

type_synonym ustring = "nat list"

definition ascii :: "string \<Rightarrow> ustring" where
  "ascii s = map of_char s"

text \<open>
  The value of one field of an event payload or of a request body: a JSON primitive, or
  \<open>JUndefined\<close> when the field is absent.
\<close>

datatype jsval = JUndefined | JNull | JBool bool | JNum jsnum | JStr ustring

text \<open>ToBoolean.\<close>

fun truthy :: "jsval \<Rightarrow> bool" where
  "truthy JUndefined = False"
| "truthy JNull = False"
| "truthy (JBool b) = b"
| "truthy (JNum n) = (n \<noteq> NaN \<and> n \<noteq> Fin 0)"
| "truthy (JStr s) = (s \<noteq> [])"

text \<open>\<^verbatim>\<open>a || b\<close> on values.\<close>

definition js_or :: "jsval \<Rightarrow> jsval \<Rightarrow> jsval" where
  "js_or a b = (if truthy a then a else b)"

text \<open>\<^verbatim>\<open>n || 0\<close> on a number.\<close>

definition num_or_zero :: "jsnum \<Rightarrow> jsnum" where
  "num_or_zero n = (if n = NaN \<or> n = Fin 0 then Fin 0 else n)"

text \<open>The sum of two numbers, as \<^verbatim>\<open>+\<close> computes it on NaN and the infinities.\<close>

fun js_add :: "jsnum \<Rightarrow> jsnum \<Rightarrow> jsnum" where
  "js_add (Fin a) (Fin b) = Fin (a + b)"
| "js_add NaN _ = NaN"
| "js_add _ NaN = NaN"
| "js_add PosInf NegInf = NaN"
| "js_add NegInf PosInf = NaN"
| "js_add PosInf _ = PosInf"
| "js_add NegInf _ = NegInf"
| "js_add _ PosInf = PosInf"
| "js_add _ NegInf = NegInf"

text \<open>
  The places where the code calls \<^verbatim>\<open>Date.now()\<close>: the default room of
  \<^verbatim>\<open>getOrCreateRoom\<close>, the assignment to \<^verbatim>\<open>lastUpdatedAt\<close>, the elapsed time
  of \<^verbatim>\<open>getSyncedTime\<close>, \<^verbatim>\<open>serverNow\<close> of the sync payload, the \<^verbatim>\<open>at\<close> of
  an emitted message, and the id of a chat message. No run of a handler or of an endpoint
  passes one of these places twice.
\<close>

datatype site = AtCreate | AtUpdate | AtElapsed | AtServerNow | AtEmit | AtId

text \<open>
  What the runtime supplies to one run of a handler or an endpoint: the milliseconds
  \<^verbatim>\<open>Date.now()\<close> returns at each place of call (any values: the calls may fall on
  different ticks of the clock), the six characters
  \<^verbatim>\<open>Math.random().toString(36).slice(2, 8)\<close> yields, the two conversions of the
  language between numbers and strings, and the code units of the upper-case mapping that
  the Unicode character database gives to a code point from U+0100 on.
\<close>

record env =
  now :: "site \<Rightarrow> int"
  rand_suffix :: ustring
  NumberToString :: "jsnum \<Rightarrow> ustring"
  StringToNumber :: "ustring \<Rightarrow> jsnum"
  UnicodeUpper :: "nat \<Rightarrow> ustring"

text \<open>\<^verbatim>\<open>String(v)\<close> and \<^verbatim>\<open>Number(v)\<close>.\<close>

fun js_String :: "env \<Rightarrow> jsval \<Rightarrow> ustring" where
  "js_String E JUndefined = ascii ''undefined''"
| "js_String E JNull = ascii ''null''"
| "js_String E (JBool b) = (if b then ascii ''true'' else ascii ''false'')"
| "js_String E (JNum n) = NumberToString E n"
| "js_String E (JStr s) = s"

fun js_Number :: "env \<Rightarrow> jsval \<Rightarrow> jsnum" where
  "js_Number E JUndefined = NaN"
| "js_Number E JNull = Fin 0"
| "js_Number E (JBool b) = (if b then Fin 1 else Fin 0)"
| "js_Number E (JNum n) = n"
| "js_Number E (JStr s) = StringToNumber E s"

subsection \<open>Strings\<close>

text \<open>
  The white space and the line terminators that \<^verbatim>\<open>String.prototype.trim\<close> removes:
  tab, line feed, vertical tab, form feed, carriage return, space, U+00A0, U+1680, U+2000 to
  U+200A, U+2028, U+2029, U+202F, U+205F, U+3000 and U+FEFF. Each is one code unit.
\<close>

definition is_ws :: "nat \<Rightarrow> bool" where
  "is_ws u =
     (u \<in> {0x09, 0x0A, 0x0B, 0x0C, 0x0D, 0x20, 0xA0, 0x1680, 0x2028, 0x2029, 0x202F,
            0x205F, 0x3000, 0xFEFF}
      \<or> (0x2000 \<le> u \<and> u \<le> 0x200A))"

definition trim :: "ustring \<Rightarrow> ustring" where
  "trim s = rev (dropWhile is_ws (rev (dropWhile is_ws s)))"

text \<open>
  \<^verbatim>\<open>String.prototype.toUpperCase\<close> reads the string as code points, a high surrogate
  followed by a low one being one code point, and replaces each by its upper-case
  mapping, which may be more than one character. \<open>upper_point\<close> is the mapping of a code
  point, as code units: a to z go to A to Z; in U+0080 to U+00FF the micro sign goes to
  U+039C, the sharp s to SS, U+00E0 to U+00FE without the division sign to the letter 32
  below, and U+00FF to U+0178; a white space character has no mapping; every other code
  point below U+0100 is unchanged, and from U+0100 on the mapping is the environment's.
\<close>

definition upper_point :: "env \<Rightarrow> nat \<Rightarrow> ustring" where
  "upper_point E p =
     (if 0x61 \<le> p \<and> p \<le> 0x7A then [p - 0x20]
      else if p < 0x80 then [p]
      else if p = 0xB5 then [0x39C]
      else if p = 0xDF then [0x53, 0x53]
      else if 0xE0 \<le> p \<and> p \<le> 0xFE \<and> p \<noteq> 0xF7 then [p - 0x20]
      else if p = 0xFF then [0x178]
      else if p < 0x100 \<or> is_ws p then [p]
      else UnicodeUpper E p)"

definition is_high :: "nat \<Rightarrow> bool" where
  "is_high u = (0xD800 \<le> u \<and> u \<le> 0xDBFF)"

definition is_low :: "nat \<Rightarrow> bool" where
  "is_low u = (0xDC00 \<le> u \<and> u \<le> 0xDFFF)"

definition code_point :: "nat \<Rightarrow> nat \<Rightarrow> nat" where
  "code_point hi lo = 0x10000 + (hi - 0xD800) * 0x400 + (lo - 0xDC00)"

fun toUpperCase :: "env \<Rightarrow> ustring \<Rightarrow> ustring" where
  "toUpperCase E [] = []"
| "toUpperCase E [u] = upper_point E u"
| "toUpperCase E (u # v # s) =
     (if is_high u \<and> is_low v then upper_point E (code_point u v) @ toUpperCase E s
      else upper_point E u @ toUpperCase E (v # s))"

text \<open>\<^verbatim>\<open>xs.slice(-n)\<close>: the last \<open>n\<close> elements, all of them when there are fewer.\<close>

definition slice_last :: "nat \<Rightarrow> 'a list \<Rightarrow> 'a list" where
  "slice_last n xs = drop (length xs - n) xs"

section \<open>Room state\<close>

text \<open>
  The id of a chat message is the pair that the template
  \<^verbatim>\<open>`${Date.now()}-${suffix}`\<close> joins with a dash.
\<close>

record message =
  msg_id :: "int \<times> ustring"
  msg_username :: ustring
  msg_text :: ustring
  msg_at :: int

record room_state =
  roomCode :: ustring
  videoId :: jsval
  isPlaying :: bool
  currentTime :: jsnum
  lastUpdatedAt :: int
  chat :: "message list"

type_synonym registry = "ustring \<rightharpoonup> room_state"

definition ROOM_CODE_LENGTH :: nat where
  "ROOM_CODE_LENGTH = 6"

definition ROOM_CHARSET :: ustring where
  "ROOM_CHARSET = ascii ''ABCDEFGHJKLMNPQRSTUVWXYZ23456789''"

text \<open>
  \<open>getOrCreateRoom\<close> returns the room and the registry, which holds a new default room
  when the code was not registered; \<open>t\<close> is the reading of \<^verbatim>\<open>Date.now()\<close> for the
  new room.
\<close>

definition getOrCreateRoom :: "int \<Rightarrow> registry \<Rightarrow> ustring \<Rightarrow> room_state \<times> registry" where
  "getOrCreateRoom t rooms code =
     (case rooms code of
        Some st \<Rightarrow> (st, rooms)
      | None \<Rightarrow>
          (let st = \<lparr>roomCode = code, videoId = JStr (ascii ''dQw4w9WgXcQ''), isPlaying = False,
                     currentTime = Fin 0, lastUpdatedAt = t, chat = []\<rparr>
           in (st, rooms(code \<mapsto> st))))"

definition normalizeRoomCode :: "env \<Rightarrow> jsval \<Rightarrow> ustring" where
  "normalizeRoomCode E v = toUpperCase E (trim (js_String E (js_or v (JStr []))))"

text \<open>The test of \<^verbatim>\<open>/^[A-Z0-9]{6}$/\<close>, which counts code units.\<close>

definition upper_or_digit :: "nat \<Rightarrow> bool" where
  "upper_or_digit u = ((0x41 \<le> u \<and> u \<le> 0x5A) \<or> (0x30 \<le> u \<and> u \<le> 0x39))"

definition isValidRoomCode :: "ustring \<Rightarrow> bool" where
  "isValidRoomCode code = (length code = 6 \<and> list_all upper_or_digit code)"

section \<open>Sync clock\<close>

text \<open>
  \<open>t\<close> is the reading of \<^verbatim>\<open>Date.now()\<close> inside \<open>getSyncedTime\<close>, which is made
  only when the room is playing.
\<close>

definition getSyncedTime :: "int \<Rightarrow> room_state \<Rightarrow> jsnum" where
  "getSyncedTime t state =
     (if \<not> isPlaying state then currentTime state
      else (let elapsed = Fin (real_of_int (t - lastUpdatedAt state) / 1000)
            in js_add (currentTime state) elapsed))"

record sync_payload =
  sp_isPlaying :: bool
  sp_currentTime :: jsnum
  sp_serverNow :: int

definition buildSyncPayload :: "env \<Rightarrow> room_state \<Rightarrow> sync_payload" where
  "buildSyncPayload E state =
     \<lparr>sp_isPlaying = isPlaying state,
      sp_currentTime = getSyncedTime (now E AtElapsed) state,
      sp_serverNow = now E AtServerNow\<rparr>"

section \<open>Unique room codes\<close>

datatype js_error = TypeError | Error string

text \<open>
  One character of a code: \<open>r\<close> is the value of \<^verbatim>\<open>Math.random()\<close>. Indexing the
  character set out of range yields \<^verbatim>\<open>undefined\<close>, which \<^verbatim>\<open>+=\<close> appends as text.
\<close>

definition random_char :: "real \<Rightarrow> ustring" where
  "random_char r =
     (let index = \<lfloor>r * real (length ROOM_CHARSET)\<rfloor>
      in if 0 \<le> index \<and> index < int (length ROOM_CHARSET)
         then [ROOM_CHARSET ! nat index] else ascii ''undefined'')"

text \<open>
  \<open>rnd j\<close> is the value of the \<open>j\<close>-th call of \<^verbatim>\<open>Math.random()\<close>;
  \<open>generateRoomCode rnd k\<close> consumes the calls \<open>k\<close> to \<open>k + 5\<close>.
\<close>

definition generateRoomCode :: "(nat \<Rightarrow> real) \<Rightarrow> nat \<Rightarrow> ustring" where
  "generateRoomCode rnd k = concat (map (\<lambda>i. random_char (rnd (k + i))) [0..<ROOM_CODE_LENGTH])"

function unique_loop :: "registry \<Rightarrow> (nat \<Rightarrow> real) \<Rightarrow> nat \<Rightarrow> js_error + ustring" where
  "unique_loop rooms rnd attempts =
     (if attempts < 1000
      then (if rooms (generateRoomCode rnd (ROOM_CODE_LENGTH * attempts)) = None
            then Inr (generateRoomCode rnd (ROOM_CODE_LENGTH * attempts))
            else unique_loop rooms rnd (attempts + 1))
      else Inl (Error ''Could not generate unique room code''))"
  by pat_completeness auto
termination
  by (relation "measure (\<lambda>(rooms, rnd, attempts). 1000 - attempts)") auto

declare unique_loop.simps [simp del]

definition getUniqueRoomCode :: "registry \<Rightarrow> (nat \<Rightarrow> real) \<Rightarrow> js_error + ustring" where
  "getUniqueRoomCode rooms rnd = unique_loop rooms rnd 0"

section \<open>The HTTP endpoints of the registry\<close>

text \<open>The fixed texts of the server's answers are kept as literals.\<close>

datatype http_response =
    Created ustring jsval
  | ServerError string
  | BadRequest string
  | NotFound string
  | Snapshot ustring jsval bool jsnum


text \<open>\<^verbatim>\<open>GET /api/rooms/:roomCode\<close>; a route parameter is a string.\<close>

definition get_room :: "env \<Rightarrow> registry \<Rightarrow> ustring \<Rightarrow> registry \<times> http_response" where
  "get_room E rooms param =
     (let code = normalizeRoomCode E (JStr param)
      in if \<not> isValidRoomCode code then (rooms, BadRequest ''Invalid room code format'')
         else if rooms code = None then (rooms, NotFound ''Room not found'')
         else (let (state, rooms1) = getOrCreateRoom (now E AtCreate) rooms code
               in (rooms1, Snapshot code (videoId state) (isPlaying state)
                                     (getSyncedTime (now E AtElapsed) state))))"

section \<open>Protocol dispatcher\<close>

text \<open>
  Who receives an emitted message: \<^verbatim>\<open>socket.emit\<close> reaches the sender only,
  \<^verbatim>\<open>io.to(room).emit\<close> every connection that joined the room, and
  \<^verbatim>\<open>socket.to(room).emit\<close> every such connection but the sender.
\<close>

datatype scope = SenderOnly | WholeRoom ustring | AllExceptSender ustring

datatype payload =
    JoinError string
  | RoomStateMsg ustring jsval sync_payload "message list"
  | SystemMessage ustring int
  | VideoChanged jsval "ustring option" int
  | SyncPlayMsg sync_payload
  | SyncPauseMsg sync_payload
  | SyncSeekMsg sync_payload
  | ChatMessageMsg message

type_synonym emission = "scope \<times> payload"



text \<open>
  A connection: \<^verbatim>\<open>socket.data.roomCode\<close> and \<^verbatim>\<open>socket.data.username\<close>
  (\<open>None\<close> while undefined), and the rooms \<^verbatim>\<open>socket.join\<close> has put it in.
\<close>

record socket =
  data_roomCode :: "ustring option"
  data_username :: "ustring option"
  joined :: "ustring set"

text \<open>
  What a run of a handler leaves: the registry, the connection, the messages emitted in
  order, and the exception it ended with, if any.
\<close>

record outcome =
  out_rooms :: registry
  out_socket :: socket
  out_emitted :: "emission list"
  out_thrown :: "js_error option"

text \<open>The early \<^verbatim>\<open>return\<close> of a guard, and a \<^verbatim>\<open>TypeError\<close> raised before any write.\<close>

definition dropped :: "registry \<Rightarrow> socket \<Rightarrow> outcome" where
  "dropped rooms sock =
     \<lparr>out_rooms = rooms, out_socket = sock, out_emitted = [], out_thrown = None\<rparr>"

definition threw :: "registry \<Rightarrow> socket \<Rightarrow> outcome" where
  "threw rooms sock =
     \<lparr>out_rooms = rooms, out_socket = sock, out_emitted = [], out_thrown = Some TypeError\<rparr>"

definition join_room :: "env \<Rightarrow> registry \<Rightarrow> socket \<Rightarrow> jsval \<Rightarrow> jsval \<Rightarrow> outcome" where
  "join_room E rooms sock p_roomCode p_username =
     (let normalizedCode = normalizeRoomCode E p_roomCode;
          cleanName = trim (js_String E (js_or p_username (JStr [])))
      in if cleanName = [] \<or> \<not> isValidRoomCode normalizedCode
         then \<lparr>out_rooms = rooms, out_socket = sock,
               out_emitted = [(SenderOnly, JoinError ''Invalid room code or username'')],
               out_thrown = None\<rparr>
         else if rooms normalizedCode = None
         then \<lparr>out_rooms = rooms, out_socket = sock,
               out_emitted = [(SenderOnly, JoinError ''Room does not exist'')],
               out_thrown = None\<rparr>
         else (let sock1 = sock\<lparr>data_roomCode := Some normalizedCode,
                                 data_username := Some cleanName,
                                 joined := insert normalizedCode (joined sock)\<rparr>;
                   (state, rooms1) = getOrCreateRoom (now E AtCreate) rooms normalizedCode
               in \<lparr>out_rooms = rooms1, out_socket = sock1,
                   out_emitted =
                     [(SenderOnly, RoomStateMsg normalizedCode (videoId state)
                                     (buildSyncPayload E state)
                                     (slice_last 50 (chat state))),
                      (WholeRoom normalizedCode,
                       SystemMessage (cleanName @ ascii '' joined'') (now E AtEmit))],
                   out_thrown = None\<rparr>))"

definition set_video :: "env \<Rightarrow> registry \<Rightarrow> socket \<Rightarrow> jsval \<Rightarrow> outcome" where
  "set_video E rooms sock p_videoId =
     (case data_roomCode sock of
        None \<Rightarrow> dropped rooms sock
      | Some code \<Rightarrow>
          if code = [] \<or> \<not> truthy p_videoId then dropped rooms sock
          else (let (state, rooms1) = getOrCreateRoom (now E AtCreate) rooms code;
                    state1 = state\<lparr>videoId := p_videoId, currentTime := Fin 0,
                                   isPlaying := False, lastUpdatedAt := now E AtUpdate\<rparr>
                in \<lparr>out_rooms = rooms1(code \<mapsto> state1), out_socket = sock,
                    out_emitted =
                      [(WholeRoom code, VideoChanged p_videoId (data_username sock) (now E AtEmit))],
                    out_thrown = None\<rparr>))"

definition sync_play :: "env \<Rightarrow> registry \<Rightarrow> socket \<Rightarrow> jsval \<Rightarrow> outcome" where
  "sync_play E rooms sock p_currentTime =
     (case data_roomCode sock of
        None \<Rightarrow> dropped rooms sock
      | Some code \<Rightarrow>
          if code = [] then dropped rooms sock
          else (let (state, rooms1) = getOrCreateRoom (now E AtCreate) rooms code;
                    state1 = state\<lparr>isPlaying := True,
                                   currentTime := num_or_zero (js_Number E p_currentTime),
                                   lastUpdatedAt := now E AtUpdate\<rparr>
                in \<lparr>out_rooms = rooms1(code \<mapsto> state1), out_socket = sock,
                    out_emitted = [(AllExceptSender code, SyncPlayMsg (buildSyncPayload E state1))],
                    out_thrown = None\<rparr>))"

definition sync_pause :: "env \<Rightarrow> registry \<Rightarrow> socket \<Rightarrow> jsval \<Rightarrow> outcome" where
  "sync_pause E rooms sock p_currentTime =
     (case data_roomCode sock of
        None \<Rightarrow> dropped rooms sock
      | Some code \<Rightarrow>
          if code = [] then dropped rooms sock
          else (let (state, rooms1) = getOrCreateRoom (now E AtCreate) rooms code;
                    state1 = state\<lparr>isPlaying := False,
                                   currentTime := num_or_zero (js_Number E p_currentTime),
                                   lastUpdatedAt := now E AtUpdate\<rparr>
                in \<lparr>out_rooms = rooms1(code \<mapsto> state1), out_socket = sock,
                    out_emitted = [(AllExceptSender code, SyncPauseMsg (buildSyncPayload E state1))],
                    out_thrown = None\<rparr>))"

definition sync_seek :: "env \<Rightarrow> registry \<Rightarrow> socket \<Rightarrow> jsval \<Rightarrow> outcome" where
  "sync_seek E rooms sock p_currentTime =
     (case data_roomCode sock of
        None \<Rightarrow> dropped rooms sock
      | Some code \<Rightarrow>
          if code = [] then dropped rooms sock
          else (let (state, rooms1) = getOrCreateRoom (now E AtCreate) rooms code;
                    state1 = state\<lparr>currentTime := num_or_zero (js_Number E p_currentTime),
                                   lastUpdatedAt := now E AtUpdate\<rparr>
                in \<lparr>out_rooms = rooms1(code \<mapsto> state1), out_socket = sock,
                    out_emitted = [(AllExceptSender code, SyncSeekMsg (buildSyncPayload E state1))],
                    out_thrown = None\<rparr>))"

text \<open>
  \<open>push_chat\<close> is the \<^verbatim>\<open>push\<close> followed by the cut to the last 200 entries.
\<close>

definition push_chat :: "message \<Rightarrow> message list \<Rightarrow> message list" where
  "push_chat m entries =
     (if length (entries @ [m]) > 200 then slice_last 200 (entries @ [m]) else entries @ [m])"

definition make_message :: "env \<Rightarrow> ustring \<Rightarrow> ustring \<Rightarrow> message" where
  "make_message E name s =
     \<lparr>msg_id = (now E AtId, rand_suffix E), msg_username = name,
      msg_text = take 500 (trim s), msg_at = now E AtEmit\<rparr>"

text \<open>
  In the guard, \<^verbatim>\<open>text?.trim()\<close> is reached only when room code and user name are set;
  it is undefined for an absent or null text and raises a TypeError for a text that is a
  boolean or a number, which has no \<^verbatim>\<open>trim\<close>.
\<close>

definition chat_message :: "env \<Rightarrow> registry \<Rightarrow> socket \<Rightarrow> jsval \<Rightarrow> outcome" where
  "chat_message E rooms sock p_text =
     (case data_roomCode sock of
        None \<Rightarrow> dropped rooms sock
      | Some code \<Rightarrow>
          if code = [] then dropped rooms sock
          else (case data_username sock of
                  None \<Rightarrow> dropped rooms sock
                | Some name \<Rightarrow>
                    if name = [] then dropped rooms sock
                    else (case p_text of
                            JUndefined \<Rightarrow> dropped rooms sock
                          | JNull \<Rightarrow> dropped rooms sock
                          | JBool b \<Rightarrow> threw rooms sock
                          | JNum n \<Rightarrow> threw rooms sock
                          | JStr s \<Rightarrow>
                              if trim s = [] then dropped rooms sock
                              else (let (state, rooms1) =
                                          getOrCreateRoom (now E AtCreate) rooms code;
                                        message = make_message E name s;
                                        state1 = state\<lparr>chat := push_chat message (chat state)\<rparr>
                                    in \<lparr>out_rooms = rooms1(code \<mapsto> state1), out_socket = sock,
                                        out_emitted = [(WholeRoom code, ChatMessageMsg message)],
                                        out_thrown = None\<rparr>))))"

text \<open>
  By the time the disconnect handler runs the library has taken the connection out of
  every room it had joined.
\<close>

definition disconnect :: "env \<Rightarrow> registry \<Rightarrow> socket \<Rightarrow> outcome" where
  "disconnect E rooms sock =
     (case data_roomCode sock of
        None \<Rightarrow> dropped rooms (sock\<lparr>joined := {}\<rparr>)
      | Some code \<Rightarrow>
          if code = [] then dropped rooms (sock\<lparr>joined := {}\<rparr>)
          else (case data_username sock of
                  None \<Rightarrow> dropped rooms (sock\<lparr>joined := {}\<rparr>)
                | Some name \<Rightarrow>
                    if name = [] then dropped rooms (sock\<lparr>joined := {}\<rparr>)
                    else \<lparr>out_rooms = rooms, out_socket = sock\<lparr>joined := {}\<rparr>,
                          out_emitted =
                            [(WholeRoom code, SystemMessage (name @ ascii '' left'') (now E AtEmit))],
                          out_thrown = None\<rparr>))"

text \<open>
  An event as a connection receives it. The payload is \<open>None\<close> when the client sent no
  object (undefined or null): destructuring it raises a TypeError before the handler's
  body runs. A field the object lacks is \<open>JUndefined\<close>.
\<close>

datatype event =
    JoinRoom "(jsval \<times> jsval) option"
  | SetVideo "jsval option"
  | SyncPlay "jsval option"
  | SyncPause "jsval option"
  | SyncSeek "jsval option"
  | ChatMessage "jsval option"
  | Disconnect

fun handle :: "env \<Rightarrow> registry \<Rightarrow> socket \<Rightarrow> event \<Rightarrow> outcome" where
  "handle E rooms sock (JoinRoom (Some (c, u))) = join_room E rooms sock c u"
| "handle E rooms sock (JoinRoom None) = threw rooms sock"
| "handle E rooms sock (SetVideo (Some v)) = set_video E rooms sock v"
| "handle E rooms sock (SetVideo None) = threw rooms sock"
| "handle E rooms sock (SyncPlay (Some t)) = sync_play E rooms sock t"
| "handle E rooms sock (SyncPlay None) = threw rooms sock"
| "handle E rooms sock (SyncPause (Some t)) = sync_pause E rooms sock t"
| "handle E rooms sock (SyncPause None) = threw rooms sock"
| "handle E rooms sock (SyncSeek (Some t)) = sync_seek E rooms sock t"
| "handle E rooms sock (SyncSeek None) = threw rooms sock"
| "handle E rooms sock (ChatMessage (Some x)) = chat_message E rooms sock x"
| "handle E rooms sock (ChatMessage None) = threw rooms sock"
| "handle E rooms sock Disconnect = disconnect E rooms sock"

text \<open>A connection as \<^verbatim>\<open>io.on("connection")\<close> hands it over: no data, no room.\<close>

definition new_socket :: socket where
  "new_socket = \<lparr>data_roomCode = None, data_username = None, joined = {}\<rparr>"

text \<open>
  A sequence of events, each with the environment of its run and the connection it
  arrives on; the registry is threaded through and the emitted messages are collected in
  order.
\<close>

fun run :: "registry \<Rightarrow> (env \<times> socket \<times> event) list \<Rightarrow> registry \<times> emission list" where
  "run rooms [] = (rooms, [])"
| "run rooms ((E, sock, ev) # evs) =
     (let out = handle E rooms sock ev;
          (rooms1, ems) = run (out_rooms out) evs
      in (rooms1, out_emitted out @ ems))"

section \<open>The server as a whole\<close>


text \<open>Every value of the random source lies in the range of \<^verbatim>\<open>Math.random()\<close>.\<close>

definition unit_range :: "(nat \<Rightarrow> real) \<Rightarrow> bool" where
  "unit_range rnd = (\<forall>j. 0 \<le> rnd j \<and> rnd j < 1)"


section \<open>Notions used to state the properties\<close>

text \<open>The chat log of a room, empty for a code that is not registered.\<close>

definition chat_log :: "registry \<Rightarrow> ustring \<Rightarrow> message list" where
  "chat_log rooms code = (case rooms code of None \<Rightarrow> [] | Some st \<Rightarrow> chat st)"

text \<open>The chat messages broadcast to a room, in the order of emission.\<close>

fun chat_sent :: "ustring \<Rightarrow> emission list \<Rightarrow> message list" where
  "chat_sent code [] = []"
| "chat_sent code ((WholeRoom c, ChatMessageMsg m) # es) =
     (if c = code then m # chat_sent code es else chat_sent code es)"
| "chat_sent code (e # es) = chat_sent code es"

text \<open>A participant is joined when its connection carries a room code.\<close>

definition is_joined :: "socket \<Rightarrow> bool" where
  "is_joined sock = (case data_roomCode sock of None \<Rightarrow> False | Some c \<Rightarrow> c \<noteq> [])"

definition has_username :: "socket \<Rightarrow> bool" where
  "has_username sock = (case data_username sock of None \<Rightarrow> False | Some n \<Rightarrow> n \<noteq> [])"




text \<open>The message of the join error a run ended with, if it did.\<close>

definition join_error :: "outcome \<Rightarrow> string option" where
  "join_error out =
     (case out_emitted out of
        [(SenderOnly, JoinError m)] \<Rightarrow> Some m
      | _ \<Rightarrow> None)"

text \<open>The format of the codes the generator produces: six symbols of the character set.\<close>

definition generated_format :: "ustring \<Rightarrow> bool" where
  "generated_format code =
     (length code = ROOM_CODE_LENGTH \<and> list_all (\<lambda>c. c \<in> set ROOM_CHARSET) code)"

text \<open>
  A character of a lower-case variant of a code: the character itself, or the small letter
  of a capital letter.
\<close>

definition case_variant :: "nat \<Rightarrow> nat \<Rightarrow> bool" where
  "case_variant a b = (a = b \<or> (0x41 \<le> b \<and> b \<le> 0x5A \<and> a = b + 0x20))"


subsection \<open>Sample inputs\<close>

text \<open>
  An environment for the examples. Its clock ticks between the calls of one run; none of
  the examples converts between numbers and strings or upper-cases a character from
  U+0100 on.
\<close>

fun sample_clock :: "site \<Rightarrow> int" where
  "sample_clock AtCreate = 13000"
| "sample_clock AtUpdate = 13000"
| "sample_clock AtElapsed = 13001"
| "sample_clock AtServerNow = 13002"
| "sample_clock AtEmit = 13003"
| "sample_clock AtId = 13003"

definition sample_env :: env where
  "sample_env =
     \<lparr>now = sample_clock, rand_suffix = ascii ''k3x9ab'',
      NumberToString = (\<lambda>n. ascii ''0''), StringToNumber = (\<lambda>s. NaN),
      UnicodeUpper = (\<lambda>p. [p])\<rparr>"

definition sample_room :: "ustring \<Rightarrow> room_state" where
  "sample_room code =
     \<lparr>roomCode = code, videoId = JStr (ascii ''v1''), isPlaying = True,
      currentTime = Fin 10, lastUpdatedAt = 10000, chat = []\<rparr>"

definition sample_rooms :: registry where
  "sample_rooms =
     [ascii ''ABCDEF'' \<mapsto> sample_room (ascii ''ABCDEF''),
      ascii ''XYZ234'' \<mapsto> sample_room (ascii ''XYZ234'')]"

definition ann :: socket where
  "ann = \<lparr>data_roomCode = Some (ascii ''ABCDEF''), data_username = Some (ascii ''Ann''),
          joined = {ascii ''ABCDEF''}\<rparr>"

definition sample_rnd :: "nat \<Rightarrow> real" where
  "sample_rnd j = 1 / 2"


text \<open>
  The \<open>i\<close>-th of a sequence of chat messages that Ann sends, at the millisecond \<open>i\<close>,
  and the message the handler makes of it.
\<close>

definition hello :: "nat \<Rightarrow> env \<times> socket \<times> event" where
  "hello i = (sample_env\<lparr>now := (\<lambda>p. int i)\<rparr>, ann, ChatMessage (Some (JStr (ascii ''hello''))))"

definition hello_message :: "nat \<Rightarrow> message" where
  "hello_message i =
     \<lparr>msg_id = (int i, ascii ''k3x9ab''), msg_username = ascii ''Ann'',
      msg_text = ascii ''hello'', msg_at = int i\<rparr>"

section \<open>Strings: trimming and upper-casing\<close>

lemma ascii_eq_Nil [simp]: "(ascii s = []) = (s = [])"
  by (simp add: ascii_def)

lemma upper_or_digit_not_ws: "upper_or_digit u \<Longrightarrow> \<not> is_ws u"
  by (auto simp: upper_or_digit_def is_ws_def)

lemma upper_or_digit_fixed: "upper_or_digit u \<Longrightarrow> upper_point E u = [u]"
  by (auto simp: upper_or_digit_def upper_point_def)

lemma toUpperCase_step:
  "\<not> is_high u \<Longrightarrow> toUpperCase E (u # s) = upper_point E u @ toUpperCase E s"
  by (cases s) simp_all

lemma upper_or_digit_not_high: "upper_or_digit u \<Longrightarrow> \<not> is_high u"
  by (auto simp: upper_or_digit_def is_high_def)

lemma ascii_letters_digits_not_ws: "0x30 \<le> a \<Longrightarrow> a \<le> 0x7A \<Longrightarrow> \<not> is_ws a"
  by (auto simp: is_ws_def)

lemma variant_range:
  assumes "case_variant a b" and "upper_or_digit b"
  shows "(0x30 \<le> a \<and> a \<le> 0x5A \<and> b = a) \<or> (0x61 \<le> a \<and> a \<le> 0x7A \<and> b = a - 0x20)"
  using assms by (auto simp: case_variant_def upper_or_digit_def)

lemma upper_point_small: "0x61 \<le> a \<Longrightarrow> a \<le> 0x7A \<Longrightarrow> upper_point E a = [a - 0x20]"
  by (simp add: upper_point_def)

lemma upper_point_other: "a < 0x61 \<Longrightarrow> upper_point E a = [a]"
  by (simp add: upper_point_def)

lemma case_variant_upper:
  assumes "case_variant a b" and "upper_or_digit b"
  shows "upper_point E a = [b] \<and> \<not> is_high a \<and> \<not> is_ws a"
proof -
  note r = variant_range [OF assms]
  have range: "0x30 \<le> a \<and> a \<le> 0x7A" using r by auto
  then have ws: "\<not> is_ws a" by (simp add: ascii_letters_digits_not_ws)
  have hi: "\<not> is_high a" using range by (simp add: is_high_def)
  have up: "upper_point E a = [b]"
    using r by (auto simp: upper_point_small upper_point_other)
  show ?thesis using up hi ws by simp
qed

lemma toUpperCase_variant:
  "list_all2 case_variant s c \<Longrightarrow> list_all upper_or_digit c \<Longrightarrow> toUpperCase E s = c"
proof (induction s c rule: list_all2_induct)
  case Nil
  show ?case by simp
next
  case (Cons a s b c)
  have b: "upper_or_digit b" and c: "list_all upper_or_digit c" using Cons.prems by simp_all
  have "upper_point E a = [b]" "\<not> is_high a" using case_variant_upper [OF Cons.hyps(1) b] by simp_all
  then show ?case using Cons.IH [OF c] by (simp add: toUpperCase_step)
qed

lemma variant_no_ws:
  "list_all2 case_variant s c \<Longrightarrow> list_all upper_or_digit c \<Longrightarrow> list_all (\<lambda>a. \<not> is_ws a) s"
proof (induction s c rule: list_all2_induct)
  case Nil
  show ?case by simp
next
  case (Cons a s b c)
  have b: "upper_or_digit b" and c: "list_all upper_or_digit c" using Cons.prems by simp_all
  have "\<not> is_ws a" using case_variant_upper [OF Cons.hyps(1) b] by simp
  then show ?case using Cons.IH [OF c] by simp
qed

lemma case_variant_refl: "list_all2 case_variant c c"
  by (simp add: list_all2_same case_variant_def)

lemma trim_padded:
  assumes "list_all is_ws pre" "list_all is_ws post" "s \<noteq> []" "\<not> is_ws (hd s)" "\<not> is_ws (last s)"
  shows "trim (pre @ s @ post) = s"
proof -
  have a: "dropWhile is_ws (pre @ s @ post) = s @ post"
    using assms(1,3,4)
    by (cases s) (simp_all add: list_all_iff dropWhile_append3 dropWhile_eq_Nil_conv)
  have b: "dropWhile is_ws (rev post @ rev s) = rev s"
    using assms(2,3,5)
    by (cases s rule: rev_cases) (simp_all add: list_all_iff dropWhile_append3 dropWhile_eq_Nil_conv)
  show ?thesis by (simp add: trim_def a b)
qed

lemma normalize_variant:
  assumes "isValidRoomCode c" "list_all is_ws pre" "list_all is_ws post" "list_all2 case_variant s c"
  shows "normalizeRoomCode E (JStr (pre @ s @ post)) = c"
proof -
  have valid: "list_all upper_or_digit c" using assms(1) by (simp add: isValidRoomCode_def)
  have len: "length s = 6"
    using assms(1,4) by (auto simp: isValidRoomCode_def dest: list_all2_lengthD)
  then have ne: "s \<noteq> []" by auto
  have all: "list_all (\<lambda>a. \<not> is_ws a) s" using assms(4) valid by (rule variant_no_ws)
  have "hd s \<in> set s" "last s \<in> set s" using ne by simp_all
  then have h: "\<not> is_ws (hd s)" "\<not> is_ws (last s)"
    using all by (auto simp: list_all_iff)
  have t: "trim (pre @ s @ post) = s" using trim_padded [OF assms(2,3) ne h] .
  have u: "toUpperCase E s = c" using assms(4) valid by (rule toUpperCase_variant)
  show ?thesis using ne by (simp add: normalizeRoomCode_def js_or_def t u)
qed

lemma normalize_valid: "isValidRoomCode c \<Longrightarrow> normalizeRoomCode E (JStr c) = c"
  using normalize_variant [of c "[]" "[]" c E] by (simp add: case_variant_refl)

lemma valid_ABCDEF: "isValidRoomCode (ascii ''ABCDEF'')"
  by (simp add: isValidRoomCode_def upper_or_digit_def ascii_def)

lemma valid_XYZ234: "isValidRoomCode (ascii ''XYZ234'')"
  by (simp add: isValidRoomCode_def upper_or_digit_def ascii_def)

lemma getOrCreateRoom_registered: "rooms code = Some st \<Longrightarrow> getOrCreateRoom t rooms code = (st, rooms)"
  by (simp add: getOrCreateRoom_def)

lemma sample_registered: "sample_rooms (ascii ''ABCDEF'') = Some (sample_room (ascii ''ABCDEF''))"
  by (simp add: sample_rooms_def ascii_def)

text \<open>
  Two inputs beyond ASCII: a code padded with U+00A0 and U+FEFF is trimmed like one padded
  with spaces, and the sharp s of abcd followed by it upper-cases to SS, which makes a
  well-formed code of six characters out of a string of five.
\<close>

lemma toUpperCase_sharp_s: "toUpperCase E (ascii ''abcd'' @ [0xDF]) = ascii ''ABCDSS''"
proof -
  have low: "\<not> is_high 97" "\<not> is_high 98" "\<not> is_high 99" "\<not> is_high 100"
    by (simp_all add: is_high_def)
  have up: "upper_point E 97 = [65]" "upper_point E 98 = [66]" "upper_point E 99 = [67]"
    "upper_point E 100 = [68]" "upper_point E 0xDF = [0x53, 0x53]"
    by (simp_all add: upper_point_def)
  have "toUpperCase E [97, 98, 99, 100, 0xDF] = [65, 66, 67, 68, 0x53, 0x53]"
    by (simp add: toUpperCase_step low up)
  then show ?thesis by (simp add: ascii_def)
qed

lemma normalize_sharp_s:
  "normalizeRoomCode E (JStr ([0xA0] @ ascii ''abcd'' @ [0xDF, 0xFEFF])) = ascii ''ABCDSS'' \<and>
   isValidRoomCode (ascii ''ABCDSS'')"
proof -
  have "trim ([0xA0] @ (ascii ''abcd'' @ [0xDF]) @ [0xFEFF]) = ascii ''abcd'' @ [0xDF]"
    by (rule trim_padded) (simp_all add: is_ws_def ascii_def)
  then have "normalizeRoomCode E (JStr ([0xA0] @ ascii ''abcd'' @ [0xDF, 0xFEFF])) = ascii ''ABCDSS''"
    by (simp add: normalizeRoomCode_def js_or_def toUpperCase_sharp_s)
  moreover have "isValidRoomCode (ascii ''ABCDSS'')"
    by (simp add: isValidRoomCode_def upper_or_digit_def ascii_def)
  ultimately show ?thesis by simp
qed

section \<open>The sync clock\<close>

text \<open>
  C1. For every room state and every read instant, the synced time is the stored
  \<open>currentTime\<close>, unchanged, while the room is not playing; while it is playing it is
  \<open>currentTime\<close> plus the elapsed milliseconds since \<open>lastUpdatedAt\<close> divided by 1000,
  which for a finite stored position is the sum of the two in seconds.
\<close>

theorem getSyncedTime_cases:
  "(\<not> isPlaying state \<longrightarrow> getSyncedTime t state = currentTime state) \<and>
   (isPlaying state \<longrightarrow>
      getSyncedTime t state =
        js_add (currentTime state) (Fin (real_of_int (t - lastUpdatedAt state) / 1000))) \<and>
   (isPlaying state \<longrightarrow> currentTime state = Fin c \<longrightarrow>
      getSyncedTime t state = Fin (c + real_of_int (t - lastUpdatedAt state) / 1000))"
  by (simp add: getSyncedTime_def)

theorem getSyncedTime_cases_witness:
  "getSyncedTime 13000 (sample_room (ascii ''ABCDEF'')) = Fin 13 \<and>
   getSyncedTime 13000 ((sample_room (ascii ''ABCDEF''))\<lparr>isPlaying := False\<rparr>) = Fin 10"
  using getSyncedTime_cases [of "sample_room (ascii ''ABCDEF'')" 13000 10]
        getSyncedTime_cases [of "(sample_room (ascii ''ABCDEF''))\<lparr>isPlaying := False\<rparr>" 13000 10]
  by (simp add: sample_room_def)

section \<open>Normalisation of room codes\<close>

text \<open>
  C10. The join-room handler and the snapshot lookup normalise the supplied code before
  they validate it and look it up. Let \<open>c\<close> be a well-formed code, \<open>s\<close> a variant of it
  in which any of its letters are in lower case, and \<open>pre\<close> and \<open>post\<close> any strings of
  the white space that \<^verbatim>\<open>trim\<close> removes (tab, line feed, space, U+00A0, U+2028, U+FEFF
  and the others). Then \<open>pre\<close>, \<open>s\<close>, \<open>post\<close> put together normalise to \<open>c\<close>, and a
  join or a lookup with that string does exactly what it does with \<open>c\<close> itself.
\<close>

theorem code_variants_same_room:
  assumes "isValidRoomCode c" and "list_all is_ws pre" and "list_all is_ws post"
    and "list_all2 case_variant s c"
  shows "normalizeRoomCode E (JStr (pre @ s @ post)) = c \<and>
         handle E rooms sock (JoinRoom (Some (JStr (pre @ s @ post), u))) =
           handle E rooms sock (JoinRoom (Some (JStr c, u))) \<and>
         get_room E rooms (pre @ s @ post) = get_room E rooms c"
proof -
  have v: "normalizeRoomCode E (JStr (pre @ s @ post)) = c"
    using assms by (rule normalize_variant)
  have k: "normalizeRoomCode E (JStr c) = c"
    using assms(1) by (rule normalize_valid)
  have j: "join_room E rooms sock (JStr (pre @ s @ post)) u = join_room E rooms sock (JStr c) u"
    unfolding join_room_def v k ..
  have g: "get_room E rooms (pre @ s @ post) = get_room E rooms c"
    unfolding get_room_def v k ..
  show ?thesis using v j g by simp
qed

lemma clean_name_Bo: "trim (js_String E (js_or (JStr (ascii ''Bo'')) (JStr []))) = ascii ''Bo''"
  by (simp add: js_or_def trim_def is_ws_def ascii_def)

theorem code_variants_same_room_witness:
  "isValidRoomCode (ascii ''ABCDEF'') \<and>
   list_all is_ws [0xA0, 0x20] \<and> list_all is_ws [0x09, 0x0A, 0x2028, 0xFEFF] \<and>
   list_all2 case_variant (ascii ''abcDef'') (ascii ''ABCDEF'') \<and>
   normalizeRoomCode sample_env
       (JStr ([0xA0, 0x20] @ ascii ''abcDef'' @ [0x09, 0x0A, 0x2028, 0xFEFF])) = ascii ''ABCDEF'' \<and>
   handle sample_env sample_rooms new_socket
       (JoinRoom (Some (JStr ([0xA0, 0x20] @ ascii ''abcDef'' @ [0x09, 0x0A, 0x2028, 0xFEFF]),
                        JStr (ascii ''Bo'')))) =
     handle sample_env sample_rooms new_socket
       (JoinRoom (Some (JStr (ascii ''ABCDEF''), JStr (ascii ''Bo'')))) \<and>
   get_room sample_env sample_rooms ([0xA0, 0x20] @ ascii ''abcDef'' @ [0x09, 0x0A, 0x2028, 0xFEFF]) =
     get_room sample_env sample_rooms (ascii ''ABCDEF'') \<and>
   data_roomCode (out_socket (handle sample_env sample_rooms new_socket
       (JoinRoom (Some (JStr ([0xA0, 0x20] @ ascii ''abcDef'' @ [0x09, 0x0A, 0x2028, 0xFEFF]),
                        JStr (ascii ''Bo'')))))) =
     Some (ascii ''ABCDEF'')"
proof -
  have var: "list_all2 case_variant (ascii ''abcDef'') (ascii ''ABCDEF'')"
    by (simp add: case_variant_def ascii_def)
  have ws1: "list_all is_ws [0xA0, 0x20]" and ws2: "list_all is_ws [0x09, 0x0A, 0x2028, 0xFEFF]"
    by (simp_all add: is_ws_def)
  have n: "normalizeRoomCode sample_env (JStr (ascii ''ABCDEF'')) = ascii ''ABCDEF''"
    using valid_ABCDEF by (rule normalize_valid)
  have j: "data_roomCode (out_socket (handle sample_env sample_rooms new_socket
             (JoinRoom (Some (JStr (ascii ''ABCDEF''), JStr (ascii ''Bo'')))))) =
             Some (ascii ''ABCDEF'')"
    by (simp add: join_room_def n valid_ABCDEF sample_registered getOrCreateRoom_registered
        clean_name_Bo Let_def)
  note t = code_variants_same_room [OF valid_ABCDEF ws1 ws2 var, of sample_env sample_rooms
        new_socket "JStr (ascii ''Bo'')"]
  show ?thesis
    using t j valid_ABCDEF ws1 ws2 var by (simp only: simp_thms)
qed

section \<open>Pausing and seeking\<close>

lemma num_or_zero_number: "n \<noteq> NaN \<Longrightarrow> num_or_zero n = n"
  by (simp add: num_or_zero_def)


lemma sync_pause_room:
  assumes "data_roomCode sock = Some code" and "code \<noteq> []"
  shows "out_rooms (sync_pause E rooms sock p) code =
           Some ((fst (getOrCreateRoom (now E AtCreate) rooms code))
                   \<lparr>isPlaying := False, currentTime := num_or_zero (js_Number E p),
                    lastUpdatedAt := now E AtUpdate\<rparr>)"
  using assms by (simp add: sync_pause_def Let_def split: prod.split)

text \<open>
  C2. For a joined participant and a time \<open>n\<close> that is a number (not NaN), after
  \<open>sync-pause\<close> with \<open>n\<close> the room is paused at \<open>n\<close>, and a read of the room at any
  instant gives exactly \<open>n\<close>, with nothing added for the time elapsed: through the sync
  clock, through the sync payload, and through the snapshot lookup of the room's code.
\<close>

theorem pause_then_snapshot:
  assumes "data_roomCode sock = Some code" and "code \<noteq> []" and "n \<noteq> NaN"
  shows "\<exists>st. out_rooms (handle E rooms sock (SyncPause (Some (JNum n)))) code = Some st \<and>
              currentTime st = n \<and> \<not> isPlaying st \<and>
              getSyncedTime t st = n \<and>
              sp_currentTime (buildSyncPayload E2 st) = n \<and>
              (isValidRoomCode code \<longrightarrow>
                 snd (get_room E1 (out_rooms (handle E rooms sock (SyncPause (Some (JNum n))))) code) =
                   Snapshot code (videoId st) False n)"
proof -
  define st0 where "st0 = fst (getOrCreateRoom (now E AtCreate) rooms code)"
  have st0:
    "out_rooms (sync_pause E rooms sock (JNum n)) code =
       Some (st0\<lparr>isPlaying := False, currentTime := num_or_zero (js_Number E (JNum n)),
                 lastUpdatedAt := now E AtUpdate\<rparr>)"
    unfolding st0_def using assms(1,2) by (rule sync_pause_room)
  define st where "st = st0\<lparr>isPlaying := False, currentTime := n, lastUpdatedAt := now E AtUpdate\<rparr>"
  have reg: "out_rooms (handle E rooms sock (SyncPause (Some (JNum n)))) code = Some st"
    using st0 assms(3) by (simp add: st_def num_or_zero_number)
  have clock: "getSyncedTime t st = n" for t
    by (simp add: getSyncedTime_def st_def)
  have snap: "snd (get_room E1 (out_rooms (handle E rooms sock (SyncPause (Some (JNum n))))) code) =
                Snapshot code (videoId st) False n" if "isValidRoomCode code"
    using that reg
    by (simp add: get_room_def normalize_valid getOrCreateRoom_registered getSyncedTime_def st_def)
  show ?thesis
    using reg clock snap by (auto simp: buildSyncPayload_def st_def)
qed

theorem pause_then_snapshot_witness:
  "\<exists>st. out_rooms (handle sample_env sample_rooms ann (SyncPause (Some (JNum (Fin 42)))))
           (ascii ''ABCDEF'') = Some st \<and>
        currentTime st = Fin 42 \<and> \<not> isPlaying st \<and>
        getSyncedTime 99000 st = Fin 42 \<and>
        sp_currentTime (buildSyncPayload sample_env st) = Fin 42 \<and>
        snd (get_room sample_env
               (out_rooms (handle sample_env sample_rooms ann (SyncPause (Some (JNum (Fin 42))))))
               (ascii ''ABCDEF'')) =
          Snapshot (ascii ''ABCDEF'') (videoId st) False (Fin 42)"
proof -
  have a: "data_roomCode ann = Some (ascii ''ABCDEF'')" by (simp add: ann_def)
  have b: "ascii ''ABCDEF'' \<noteq> []" by (simp add: ascii_def)
  have c: "Fin 42 \<noteq> NaN" by simp
  show ?thesis
    using pause_then_snapshot [OF a b c, of sample_env sample_rooms 99000 sample_env sample_env]
      valid_ABCDEF
    by simp
qed



section \<open>Joining a room\<close>








section \<open>Events whose precondition fails\<close>












section \<open>Exceptions of the handlers\<close>

text \<open>
  The two ways a handler ends in a TypeError, both before any write: an event that
  arrives without a payload object, whoever sends it, and a chat text that is a number or
  a boolean, sent by a joined participant.
\<close>

lemma missing_payload_throws:
  "handle E rooms sock (JoinRoom None) = threw rooms sock \<and>
   handle E rooms sock (SetVideo None) = threw rooms sock \<and>
   handle E rooms sock (SyncPlay None) = threw rooms sock \<and>
   handle E rooms sock (SyncPause None) = threw rooms sock \<and>
   handle E rooms sock (SyncSeek None) = threw rooms sock \<and>
   handle E rooms sock (ChatMessage None) = threw rooms sock"
  by simp

lemma chat_text_not_string_throws:
  assumes "is_joined sock" and "has_username sock"
  shows "handle E rooms sock (ChatMessage (Some (JNum n))) = threw rooms sock \<and>
         handle E rooms sock (ChatMessage (Some (JBool b))) = threw rooms sock"
  using assms
  by (auto simp: chat_message_def is_joined_def has_username_def split: option.splits)

section \<open>Room membership of a participant\<close>

lemma valid_code_not_empty: "isValidRoomCode c \<Longrightarrow> c \<noteq> []"
  by (auto simp: isValidRoomCode_def)

lemma join_room_socket:
  "out_socket (join_room E rooms sock c u) =
     (if trim (js_String E (js_or u (JStr []))) \<noteq> [] \<and> isValidRoomCode (normalizeRoomCode E c)
         \<and> rooms (normalizeRoomCode E c) \<noteq> None
      then sock\<lparr>data_roomCode := Some (normalizeRoomCode E c),
                 data_username := Some (trim (js_String E (js_or u (JStr [])))),
                 joined := insert (normalizeRoomCode E c) (joined sock)\<rparr>
      else sock)"
  by (simp add: join_room_def Let_def split: prod.split)

lemma join_room_error:
  "join_error (join_room E rooms sock c u) =
     (if trim (js_String E (js_or u (JStr []))) = [] \<or> \<not> isValidRoomCode (normalizeRoomCode E c)
      then Some ''Invalid room code or username''
      else if rooms (normalizeRoomCode E c) = None then Some ''Room does not exist''
      else None)"
  by (simp add: join_room_def join_error_def Let_def split: prod.split)

lemma other_events_socket_data:
  assumes "\<And>p. ev \<noteq> JoinRoom (Some p)"
  shows "data_roomCode (out_socket (handle E rooms sock ev)) = data_roomCode sock \<and>
         data_username (out_socket (handle E rooms sock ev)) = data_username sock"
proof (cases ev)
  case (JoinRoom p)
  then show ?thesis using assms by (cases p) (simp_all add: threw_def)
next
  case (SetVideo p)
  then show ?thesis
    by (cases p) (auto simp: threw_def dropped_def set_video_def Let_def split: option.splits prod.splits)
next
  case (SyncPlay p)
  then show ?thesis
    by (cases p) (auto simp: threw_def dropped_def sync_play_def Let_def split: option.splits prod.splits)
next
  case (SyncPause p)
  then show ?thesis
    by (cases p) (auto simp: threw_def dropped_def sync_pause_def Let_def split: option.splits prod.splits)
next
  case (SyncSeek p)
  then show ?thesis
    by (cases p) (auto simp: threw_def dropped_def sync_seek_def Let_def split: option.splits prod.splits)
next
  case (ChatMessage p)
  then show ?thesis
    by (cases p)
       (auto simp: threw_def dropped_def chat_message_def Let_def
             split: option.splits prod.splits jsval.splits)
next
  case Disconnect
  then show ?thesis
    by (auto simp: dropped_def disconnect_def split: option.splits)
qed

text \<open>
  C5, as amended. A joined participant never becomes unjoined, and its room code changes
  only by a \<open>join-room\<close> that succeeds: a \<open>join-room\<close> that is rejected leaves the
  connection as it was, and every other event leaves the participant's room code and user
  name as they were. The handler has no guard against a second join: a \<open>join-room\<close>
  that succeeds on a connection that is already joined replaces its room code by the new
  normalised code, and the connection stays in the rooms it had joined before.
\<close>

theorem membership_changes_only_by_join:
  "(is_joined sock \<longrightarrow> is_joined (out_socket (handle E rooms sock ev))) \<and>
   (data_roomCode (out_socket (handle E rooms sock ev)) \<noteq> data_roomCode sock \<longrightarrow>
      (\<exists>c u. ev = JoinRoom (Some (c, u)) \<and> join_error (handle E rooms sock ev) = None \<and>
             rooms (normalizeRoomCode E c) \<noteq> None)) \<and>
   (join_error (handle E rooms sock (JoinRoom (Some (c, u)))) \<noteq> None \<longrightarrow>
      out_socket (handle E rooms sock (JoinRoom (Some (c, u)))) = sock) \<and>
   (join_error (handle E rooms sock (JoinRoom (Some (c, u)))) = None \<longrightarrow>
      data_roomCode (out_socket (handle E rooms sock (JoinRoom (Some (c, u))))) =
        Some (normalizeRoomCode E c) \<and>
      joined (out_socket (handle E rooms sock (JoinRoom (Some (c, u))))) =
        insert (normalizeRoomCode E c) (joined sock))"
proof -
  have a: "is_joined (out_socket (handle E rooms sock ev))" if j: "is_joined sock"
  proof (cases "\<exists>p. ev = JoinRoom (Some p)")
    case True
    then obtain c u where "ev = JoinRoom (Some (c, u))" by auto
    then show ?thesis
      using j by (auto simp: join_room_socket is_joined_def valid_code_not_empty)
  next
    case False
    then have "data_roomCode (out_socket (handle E rooms sock ev)) = data_roomCode sock"
      using other_events_socket_data [of ev E rooms sock] by blast
    then show ?thesis using j by (simp add: is_joined_def)
  qed
  have b: "\<exists>c u. ev = JoinRoom (Some (c, u)) \<and> join_error (handle E rooms sock ev) = None \<and>
             rooms (normalizeRoomCode E c) \<noteq> None"
    if d: "data_roomCode (out_socket (handle E rooms sock ev)) \<noteq> data_roomCode sock"
  proof (cases "\<exists>p. ev = JoinRoom (Some p)")
    case True
    then obtain c u where ev: "ev = JoinRoom (Some (c, u))" by auto
    have "join_error (join_room E rooms sock c u) = None \<and> rooms (normalizeRoomCode E c) \<noteq> None"
      using d unfolding ev by (auto simp: join_room_socket join_room_error split: if_splits)
    then show ?thesis using ev by simp
  next
    case False
    then show ?thesis using d other_events_socket_data [of ev E rooms sock] by blast
  qed
  have c: "out_socket (handle E rooms sock (JoinRoom (Some (c, u)))) = sock"
    if "join_error (handle E rooms sock (JoinRoom (Some (c, u)))) \<noteq> None"
    using that by (auto simp: join_room_socket join_room_error split: if_splits)
  have d: "data_roomCode (out_socket (handle E rooms sock (JoinRoom (Some (c, u))))) =
             Some (normalizeRoomCode E c) \<and>
           joined (out_socket (handle E rooms sock (JoinRoom (Some (c, u))))) =
             insert (normalizeRoomCode E c) (joined sock)"
    if "join_error (handle E rooms sock (JoinRoom (Some (c, u)))) = None"
    using that by (auto simp: join_room_socket join_room_error split: if_splits)
  show ?thesis using a b c d by blast
qed

lemma normalize_XYZ234: "normalizeRoomCode E (JStr (ascii ''XYZ234'')) = ascii ''XYZ234''"
  using valid_XYZ234 by (rule normalize_valid)

lemma normalize_ABCDEF: "normalizeRoomCode E (JStr (ascii ''ABCDEF'')) = ascii ''ABCDEF''"
  using valid_ABCDEF by (rule normalize_valid)

lemma clean_name_Ann: "trim (js_String E (js_or (JStr (ascii ''Ann'')) (JStr []))) = ascii ''Ann''"
  by (simp add: js_or_def trim_def is_ws_def ascii_def)

lemma sample_registered_XYZ: "sample_rooms (ascii ''XYZ234'') \<noteq> None"
  by (simp add: sample_rooms_def ascii_def)

theorem membership_changes_only_by_join_witness:
  "is_joined ann \<and>
   is_joined (out_socket (handle sample_env sample_rooms ann
                (JoinRoom (Some (JStr (ascii ''XYZ234''), JStr (ascii ''Ann'')))))) \<and>
   join_error (handle sample_env sample_rooms ann
                (JoinRoom (Some (JStr (ascii ''XYZ234''), JStr (ascii ''Ann''))))) = None \<and>
   data_roomCode (out_socket (handle sample_env sample_rooms ann
                (JoinRoom (Some (JStr (ascii ''XYZ234''), JStr (ascii ''Ann'')))))) =
     Some (ascii ''XYZ234'') \<and>
   joined (out_socket (handle sample_env sample_rooms ann
                (JoinRoom (Some (JStr (ascii ''XYZ234''), JStr (ascii ''Ann'')))))) =
     {ascii ''XYZ234'', ascii ''ABCDEF''}"
proof -
  have j: "is_joined ann" by (simp add: is_joined_def ann_def)
  have e: "join_error (handle sample_env sample_rooms ann
             (JoinRoom (Some (JStr (ascii ''XYZ234''), JStr (ascii ''Ann''))))) = None"
    by (simp add: join_room_error normalize_XYZ234 clean_name_Ann valid_XYZ234 sample_registered_XYZ)
  note m = membership_changes_only_by_join [of ann sample_env sample_rooms
        "JoinRoom (Some (JStr (ascii ''XYZ234''), JStr (ascii ''Ann'')))" "JStr (ascii ''XYZ234'')"
        "JStr (ascii ''Ann'')"]
  have a: "is_joined (out_socket (handle sample_env sample_rooms ann
             (JoinRoom (Some (JStr (ascii ''XYZ234''), JStr (ascii ''Ann''))))))"
    using m [THEN conjunct1] j by (rule mp)
  have d: "data_roomCode (out_socket (handle sample_env sample_rooms ann
             (JoinRoom (Some (JStr (ascii ''XYZ234''), JStr (ascii ''Ann'')))))) =
             Some (normalizeRoomCode sample_env (JStr (ascii ''XYZ234''))) \<and>
           joined (out_socket (handle sample_env sample_rooms ann
             (JoinRoom (Some (JStr (ascii ''XYZ234''), JStr (ascii ''Ann'')))))) =
             insert (normalizeRoomCode sample_env (JStr (ascii ''XYZ234''))) (joined ann)"
    using m [THEN conjunct2, THEN conjunct2, THEN conjunct2] e by (rule mp)
  have s: "joined ann = {ascii ''ABCDEF''}" by (simp add: ann_def)
  show ?thesis
    using j a e d unfolding normalize_XYZ234 s by blast
qed

text \<open>
  C5 as it was stated fails: a participant that joined the room ABCDEF on a fresh
  connection and then sends \<open>join-room\<close> for XYZ234 on the same connection has XYZ234 as
  its room.
\<close>

theorem second_join_changes_room:
  "data_roomCode (out_socket (handle sample_env sample_rooms new_socket
       (JoinRoom (Some (JStr (ascii ''ABCDEF''), JStr (ascii ''Ann'')))))) =
     Some (ascii ''ABCDEF'') \<and>
   data_roomCode (out_socket (handle sample_env sample_rooms
       (out_socket (handle sample_env sample_rooms new_socket
          (JoinRoom (Some (JStr (ascii ''ABCDEF''), JStr (ascii ''Ann''))))))
       (JoinRoom (Some (JStr (ascii ''XYZ234''), JStr (ascii ''Ann'')))))) =
     Some (ascii ''XYZ234'')"
  by (simp add: join_room_socket normalize_XYZ234 normalize_ABCDEF clean_name_Ann valid_XYZ234
      valid_ABCDEF sample_registered sample_registered_XYZ)

section \<open>The generator of room codes\<close>

lemma charset_length: "length ROOM_CHARSET = 32"
  by (simp add: ROOM_CHARSET_def ascii_def)

lemma charset_distinct: "distinct ROOM_CHARSET"
  by (simp add: ROOM_CHARSET_def ascii_def)

lemma charset_upper_or_digit: "list_all upper_or_digit ROOM_CHARSET"
  by (simp add: ROOM_CHARSET_def upper_or_digit_def ascii_def)

lemma charset_excludes: "list_all (\<lambda>ch. ch \<notin> set ROOM_CHARSET) (ascii ''0O1I'')"
  by (simp add: ROOM_CHARSET_def ascii_def)

lemma random_char_unit:
  assumes "0 \<le> r" and "r < 1"
  shows "\<exists>ch. random_char r = [ch] \<and> ch \<in> set ROOM_CHARSET"
proof -
  have lo: "0 \<le> \<lfloor>r * 32\<rfloor>" using assms(1) by simp
  have "r * 32 < 32" using assms(2) by simp
  then have hi: "\<lfloor>r * 32\<rfloor> < 32" by (simp add: floor_less_iff)
  have "nat \<lfloor>r * 32\<rfloor> < 32" using lo hi by linarith
  then have "nat \<lfloor>r * 32\<rfloor> < length ROOM_CHARSET" by (simp only: charset_length)
  then have mem: "ROOM_CHARSET ! nat \<lfloor>r * 32\<rfloor> \<in> set ROOM_CHARSET" by (rule nth_mem)
  have "random_char r = [ROOM_CHARSET ! nat \<lfloor>r * 32\<rfloor>]"
    using lo hi by (simp add: random_char_def charset_length)
  then show ?thesis using mem by simp
qed

lemma concat_singletons:
  assumes "\<And>i. \<exists>ch. f i = [ch] \<and> ch \<in> S"
  shows "length (concat (map f xs)) = length xs \<and> set (concat (map f xs)) \<subseteq> S"
proof (induction xs)
  case Nil
  show ?case by simp
next
  case (Cons x xs)
  obtain ch where "f x = [ch]" "ch \<in> S" using assms by blast
  then show ?case using Cons.IH by simp
qed

lemma generateRoomCode_format:
  assumes "unit_range rnd"
  shows "generated_format (generateRoomCode rnd k)"
proof -
  have "\<exists>ch. random_char (rnd (k + i)) = [ch] \<and> ch \<in> set ROOM_CHARSET" for i
    using assms by (simp add: unit_range_def random_char_unit)
  then have "length (concat (map (\<lambda>i. random_char (rnd (k + i))) [0..<ROOM_CODE_LENGTH])) =
               length [0..<ROOM_CODE_LENGTH] \<and>
             set (concat (map (\<lambda>i. random_char (rnd (k + i))) [0..<ROOM_CODE_LENGTH])) \<subseteq>
               set ROOM_CHARSET"
    by (rule concat_singletons)
  then show ?thesis
    by (auto simp: generated_format_def generateRoomCode_def list_all_iff)
qed

lemma generated_format_valid: "generated_format code \<Longrightarrow> isValidRoomCode code"
  using charset_upper_or_digit
  by (auto simp: generated_format_def isValidRoomCode_def ROOM_CODE_LENGTH_def list_all_iff)

lemma unique_loop_found:
  "unique_loop rooms rnd a = Inr code \<Longrightarrow>
   \<exists>k. a \<le> k \<and> k < 1000 \<and> code = generateRoomCode rnd (ROOM_CODE_LENGTH * k) \<and> rooms code = None"
proof (induction rooms rnd a rule: unique_loop.induct)
  case (1 rooms rnd attempts)
  show ?case
  proof (cases "attempts < 1000")
    case False
    then show ?thesis using "1.prems" by (simp add: unique_loop.simps [of rooms rnd attempts])
  next
    case True
    show ?thesis
    proof (cases "rooms (generateRoomCode rnd (ROOM_CODE_LENGTH * attempts)) = None")
      case free: True
      then have "code = generateRoomCode rnd (ROOM_CODE_LENGTH * attempts)"
        using "1.prems" by (simp add: unique_loop.simps [of rooms rnd attempts] True)
      then show ?thesis using True free by auto
    next
      case taken: False
      have "unique_loop rooms rnd attempts = unique_loop rooms rnd (attempts + 1)"
        by (simp add: unique_loop.simps [of rooms rnd attempts] True taken)
      then have "unique_loop rooms rnd (attempts + 1) = Inr code"
        using "1.prems" by simp
      then obtain k where "attempts + 1 \<le> k" "k < 1000"
        "code = generateRoomCode rnd (ROOM_CODE_LENGTH * k)" "rooms code = None"
        using "1.IH" [OF True taken] by blast
      then show ?thesis by (intro exI [of _ k]) simp
    qed
  qed
qed

lemma unique_loop_exhausted:
  "(unique_loop rooms rnd a = Inl e) =
   (e = Error ''Could not generate unique room code'' \<and>
    (\<forall>k. a \<le> k \<and> k < 1000 \<longrightarrow> rooms (generateRoomCode rnd (ROOM_CODE_LENGTH * k)) \<noteq> None))"
proof (induction rooms rnd a rule: unique_loop.induct)
  case (1 rooms rnd attempts)
  show ?case
  proof (cases "attempts < 1000")
    case False
    then show ?thesis by (auto simp: unique_loop.simps [of rooms rnd attempts])
  next
    case True
    show ?thesis
    proof (cases "rooms (generateRoomCode rnd (ROOM_CODE_LENGTH * attempts)) = None")
      case free: True
      have "unique_loop rooms rnd attempts \<noteq> Inl e"
        by (simp add: unique_loop.simps [of rooms rnd attempts] True free)
      then show ?thesis using True free by auto
    next
      case taken: False
      have step: "unique_loop rooms rnd attempts = unique_loop rooms rnd (attempts + 1)"
        by (simp add: unique_loop.simps [of rooms rnd attempts] True taken)
      have "(\<forall>k. attempts \<le> k \<and> k < 1000 \<longrightarrow>
                rooms (generateRoomCode rnd (ROOM_CODE_LENGTH * k)) \<noteq> None) =
            (\<forall>k. attempts + 1 \<le> k \<and> k < 1000 \<longrightarrow>
                rooms (generateRoomCode rnd (ROOM_CODE_LENGTH * k)) \<noteq> None)"
        using taken by (metis Suc_eq_plus1 Suc_leI le_neq_implies_less Suc_leD)
      then show ?thesis using "1.IH" [OF True taken] step by simp
    qed
  qed
qed

text \<open>
  C6. With every random value in the range of \<^verbatim>\<open>Math.random()\<close>, a code the generator
  returns has exactly 6 characters, each one of the 32 distinct symbols of the character
  set, and is not registered at that moment. The generator always ends: it raises its
  error exactly when all 1000 attempts produced a registered code, and returns a code
  otherwise.
\<close>

theorem unique_code_generator:
  assumes "unit_range rnd"
  shows "(\<forall>code. getUniqueRoomCode rooms rnd = Inr code \<longrightarrow>
            length code = 6 \<and> list_all (\<lambda>ch. ch \<in> set ROOM_CHARSET) code \<and> rooms code = None) \<and>
         ((getUniqueRoomCode rooms rnd = Inl (Error ''Could not generate unique room code'')) =
            (\<forall>k<1000. rooms (generateRoomCode rnd (ROOM_CODE_LENGTH * k)) \<noteq> None)) \<and>
         ((\<exists>code. getUniqueRoomCode rooms rnd = Inr code) \<or>
            getUniqueRoomCode rooms rnd = Inl (Error ''Could not generate unique room code'')) \<and>
         length ROOM_CHARSET = 32 \<and> distinct ROOM_CHARSET"
proof -
  have found: "length code = 6 \<and> list_all (\<lambda>ch. ch \<in> set ROOM_CHARSET) code \<and> rooms code = None"
    if "getUniqueRoomCode rooms rnd = Inr code" for code
  proof -
    have "unique_loop rooms rnd 0 = Inr code"
      using that by (simp add: getUniqueRoomCode_def)
    then obtain k where k: "code = generateRoomCode rnd (ROOM_CODE_LENGTH * k)" "rooms code = None"
      using unique_loop_found by blast
    have "generated_format code" unfolding k(1) using assms by (rule generateRoomCode_format)
    then show ?thesis using k(2) by (simp add: generated_format_def ROOM_CODE_LENGTH_def)
  qed
  have exhausted:
    "(getUniqueRoomCode rooms rnd = Inl (Error ''Could not generate unique room code'')) =
       (\<forall>k<1000. rooms (generateRoomCode rnd (ROOM_CODE_LENGTH * k)) \<noteq> None)"
    by (simp add: getUniqueRoomCode_def unique_loop_exhausted)
  have total: "(\<exists>code. getUniqueRoomCode rooms rnd = Inr code) \<or>
               getUniqueRoomCode rooms rnd = Inl (Error ''Could not generate unique room code'')"
  proof (cases "getUniqueRoomCode rooms rnd")
    case (Inl e)
    then show ?thesis
      using unique_loop_exhausted [of rooms rnd 0 e] by (simp add: getUniqueRoomCode_def)
  next
    case (Inr code)
    then show ?thesis by simp
  qed
  show ?thesis using found exhausted total charset_length charset_distinct by blast
qed

lemma sample_code: "generateRoomCode sample_rnd k = ascii ''SSSSSS''"
  by (simp add: generateRoomCode_def ROOM_CODE_LENGTH_def random_char_def ROOM_CHARSET_def
      sample_rnd_def upt_rec ascii_def)

theorem unique_code_generator_witness:
  "unit_range sample_rnd \<and>
   getUniqueRoomCode sample_rooms sample_rnd = Inr (ascii ''SSSSSS'') \<and>
   length (ascii ''SSSSSS'') = 6 \<and>
   list_all (\<lambda>ch. ch \<in> set ROOM_CHARSET) (ascii ''SSSSSS'') \<and>
   sample_rooms (ascii ''SSSSSS'') = None \<and>
   getUniqueRoomCode [ascii ''SSSSSS'' \<mapsto> sample_room (ascii ''SSSSSS'')] sample_rnd =
     Inl (Error ''Could not generate unique room code'')"
proof -
  have u: "unit_range sample_rnd" by (simp add: unit_range_def sample_rnd_def)
  have free: "sample_rooms (ascii ''SSSSSS'') = None" by (simp add: sample_rooms_def ascii_def)
  have r: "getUniqueRoomCode sample_rooms sample_rnd = Inr (ascii ''SSSSSS'')"
    by (simp add: getUniqueRoomCode_def unique_loop.simps [of _ _ 0] sample_code free)
  have full: "\<forall>k<1000. [ascii ''SSSSSS'' \<mapsto> sample_room (ascii ''SSSSSS'')]
                (generateRoomCode sample_rnd (ROOM_CODE_LENGTH * k)) \<noteq> None"
    by (simp add: sample_code)
  have x: "getUniqueRoomCode [ascii ''SSSSSS'' \<mapsto> sample_room (ascii ''SSSSSS'')] sample_rnd =
             Inl (Error ''Could not generate unique room code'')"
    using unique_code_generator [OF u, of "[ascii ''SSSSSS'' \<mapsto> sample_room (ascii ''SSSSSS'')]",
        THEN conjunct2, THEN conjunct1] full by (rule iffD2)
  have f: "length (ascii ''SSSSSS'') = 6 \<and>
           list_all (\<lambda>ch. ch \<in> set ROOM_CHARSET) (ascii ''SSSSSS'') \<and>
           sample_rooms (ascii ''SSSSSS'') = None"
    using unique_code_generator [OF u, of sample_rooms, THEN conjunct1] r by blast
  show ?thesis using u r f x by blast
qed

section \<open>Validation of the room code\<close>



subsection \<open>The registered codes of a reachable server\<close>



lemma join_room_rooms: "out_rooms (join_room E rooms sock c u) = rooms"
proof (cases "rooms (normalizeRoomCode E c)")
  case None
  then show ?thesis by (simp add: join_room_def Let_def)
next
  case (Some st)
  then show ?thesis by (simp add: join_room_def Let_def getOrCreateRoom_registered)
qed





















section \<open>The chat log\<close>

lemma slice_last_short: "length xs \<le> n \<Longrightarrow> slice_last n xs = xs"
  by (simp add: slice_last_def)

lemma length_slice_last: "length (slice_last n xs) \<le> n"
  by (simp add: slice_last_def)

lemma slice_last_append: "slice_last n (slice_last n xs @ ys) = slice_last n (xs @ ys)"
proof (cases "length xs \<le> n")
  case True
  then show ?thesis by (simp add: slice_last_short)
next
  case False
  then have "length (drop (length xs - n) xs) = n" by simp
  then have "slice_last n (slice_last n xs @ ys) =
               drop (length ys) (drop (length xs - n) xs @ ys)"
    by (simp add: slice_last_def)
  also have "\<dots> = drop (length ys) (drop (length xs - n) (xs @ ys))" by simp
  also have "\<dots> = drop (length ys + (length xs - n)) (xs @ ys)" by (simp only: drop_drop)
  also have "\<dots> = slice_last n (xs @ ys)"
    using False by (simp add: slice_last_def add.commute)
  finally show ?thesis .
qed

lemma push_chat_slice: "push_chat m xs = slice_last 200 (xs @ [m])"
  by (simp add: push_chat_def slice_last_def)

lemma chat_sent_append: "chat_sent code (xs @ ys) = chat_sent code xs @ chat_sent code ys"
  by (induction code xs rule: chat_sent.induct) simp_all

lemma chat_of_created: "chat (fst (getOrCreateRoom t rooms c)) = chat_log rooms c"
  by (simp add: getOrCreateRoom_def chat_log_def Let_def split: option.split)

lemma chat_log_update:
  "chat_log ((snd (getOrCreateRoom t rooms c))(c \<mapsto> st)) code =
     (if code = c then chat st else chat_log rooms code)"
  by (simp add: getOrCreateRoom_def chat_log_def Let_def split: option.split)

lemma set_video_chat:
  "chat_log (out_rooms (set_video E rooms sock v)) code = chat_log rooms code \<and>
   chat_sent code (out_emitted (set_video E rooms sock v)) = []"
  by (simp add: set_video_def dropped_def Let_def case_prod_beta chat_log_update chat_of_created
      split: option.split)

lemma sync_play_chat:
  "chat_log (out_rooms (sync_play E rooms sock v)) code = chat_log rooms code \<and>
   chat_sent code (out_emitted (sync_play E rooms sock v)) = []"
  by (simp add: sync_play_def dropped_def Let_def case_prod_beta chat_log_update chat_of_created
      split: option.split)

lemma sync_pause_chat:
  "chat_log (out_rooms (sync_pause E rooms sock v)) code = chat_log rooms code \<and>
   chat_sent code (out_emitted (sync_pause E rooms sock v)) = []"
  by (simp add: sync_pause_def dropped_def Let_def case_prod_beta chat_log_update chat_of_created
      split: option.split)

lemma sync_seek_chat:
  "chat_log (out_rooms (sync_seek E rooms sock v)) code = chat_log rooms code \<and>
   chat_sent code (out_emitted (sync_seek E rooms sock v)) = []"
  by (simp add: sync_seek_def dropped_def Let_def case_prod_beta chat_log_update chat_of_created
      split: option.split)

lemma join_room_chat:
  "chat_log (out_rooms (join_room E rooms sock c u)) code = chat_log rooms code \<and>
   chat_sent code (out_emitted (join_room E rooms sock c u)) = []"
  by (simp add: join_room_rooms) (simp add: join_room_def Let_def case_prod_beta)

lemma disconnect_chat:
  "chat_log (out_rooms (disconnect E rooms sock)) code = chat_log rooms code \<and>
   chat_sent code (out_emitted (disconnect E rooms sock)) = []"
  by (simp add: disconnect_def dropped_def split: option.split)

lemma chat_message_chat:
  "chat_log (out_rooms (chat_message E rooms sock x)) code =
     (if chat_sent code (out_emitted (chat_message E rooms sock x)) = []
      then chat_log rooms code
      else slice_last 200
             (chat_log rooms code @ chat_sent code (out_emitted (chat_message E rooms sock x))))"
  by (simp add: chat_message_def dropped_def threw_def Let_def case_prod_beta chat_log_update
      chat_of_created push_chat_slice split: option.split jsval.split)

lemma handle_chat:
  "chat_log (out_rooms (handle E rooms sock ev)) code =
     (if chat_sent code (out_emitted (handle E rooms sock ev)) = []
      then chat_log rooms code
      else slice_last 200
             (chat_log rooms code @ chat_sent code (out_emitted (handle E rooms sock ev))))"
proof (cases ev)
  case (JoinRoom p)
  then show ?thesis by (cases p) (auto simp: threw_def join_room_chat)
next
  case (SetVideo p)
  then show ?thesis by (cases p) (simp_all add: threw_def set_video_chat)
next
  case (SyncPlay p)
  then show ?thesis by (cases p) (simp_all add: threw_def sync_play_chat)
next
  case (SyncPause p)
  then show ?thesis by (cases p) (simp_all add: threw_def sync_pause_chat)
next
  case (SyncSeek p)
  then show ?thesis by (cases p) (simp_all add: threw_def sync_seek_chat)
next
  case (ChatMessage p)
  then show ?thesis by (cases p) (simp_all add: threw_def chat_message_chat)
next
  case Disconnect
  then show ?thesis by (simp add: disconnect_chat)
qed

lemma handle_chat_bounded:
  assumes "length (chat_log rooms code) \<le> 200"
  shows "chat_log (out_rooms (handle E rooms sock ev)) code =
           slice_last 200 (chat_log rooms code @ chat_sent code (out_emitted (handle E rooms sock ev)))"
  using assms by (simp add: handle_chat [of E rooms sock ev code] slice_last_short)

lemma run_chat:
  "length (chat_log rooms code) \<le> 200 \<Longrightarrow>
   chat_log (fst (run rooms evs)) code =
     slice_last 200 (chat_log rooms code @ chat_sent code (snd (run rooms evs)))"
proof (induction evs arbitrary: rooms)
  case Nil
  then show ?case by (simp add: slice_last_short)
next
  case (Cons x evs)
  obtain E sock ev where x: "x = (E, sock, ev)" by (cases x) auto
  define rooms1 where "rooms1 = out_rooms (handle E rooms sock ev)"
  define sent1 where "sent1 = chat_sent code (out_emitted (handle E rooms sock ev))"
  have one: "chat_log rooms1 code = slice_last 200 (chat_log rooms code @ sent1)"
    unfolding rooms1_def sent1_def using Cons.prems by (rule handle_chat_bounded)
  then have "length (chat_log rooms1 code) \<le> 200" by (simp add: length_slice_last)
  then have "chat_log (fst (run rooms1 evs)) code =
               slice_last 200 (chat_log rooms1 code @ chat_sent code (snd (run rooms1 evs)))"
    by (rule Cons.IH)
  also have "\<dots> = slice_last 200 ((chat_log rooms code @ sent1) @ chat_sent code (snd (run rooms1 evs)))"
    unfolding one by (rule slice_last_append)
  finally show ?case
    by (simp add: x rooms1_def sent1_def Let_def case_prod_beta chat_sent_append)
qed

lemma drop_as_range: "drop n xs = map (\<lambda>i. xs ! i) [n..<length xs]"
proof -
  have "drop n xs = drop n (map (\<lambda>i. xs ! i) [0..<length xs])" by (simp add: map_nth)
  also have "\<dots> = map (\<lambda>i. xs ! i) (drop n [0..<length xs])" by (rule drop_map)
  finally show ?thesis by simp
qed

text \<open>
  C3. Take any sequence of events, on any connections, run from a registry in which the
  room's chat log has at most 200 entries (as the empty log of a new room has). Afterwards
  the log has at most 200 entries, and it is the last 200 of the old log followed by the
  chat messages that were broadcast to the room, in their order. In particular, when the
  log was empty and 250 messages were broadcast, the log is that sequence without its
  first 50 messages: the messages 50 to 249, in order.
\<close>

theorem chat_log_last_200:
  assumes "length (chat_log rooms code) \<le> 200"
  shows "length (chat_log (fst (run rooms evs)) code) \<le> 200 \<and>
         chat_log (fst (run rooms evs)) code =
           slice_last 200 (chat_log rooms code @ chat_sent code (snd (run rooms evs))) \<and>
         (chat_log rooms code = [] \<and> length (chat_sent code (snd (run rooms evs))) = 250 \<longrightarrow>
            chat_log (fst (run rooms evs)) code = drop 50 (chat_sent code (snd (run rooms evs))) \<and>
            chat_log (fst (run rooms evs)) code =
              map (\<lambda>i. chat_sent code (snd (run rooms evs)) ! i) [50..<250])"
proof -
  have eq: "chat_log (fst (run rooms evs)) code =
              slice_last 200 (chat_log rooms code @ chat_sent code (snd (run rooms evs)))"
    using assms by (rule run_chat)
  then have len: "length (chat_log (fst (run rooms evs)) code) \<le> 200"
    by (simp add: length_slice_last)
  have scen: "chat_log (fst (run rooms evs)) code = drop 50 (chat_sent code (snd (run rooms evs))) \<and>
              chat_log (fst (run rooms evs)) code =
                map (\<lambda>i. chat_sent code (snd (run rooms evs)) ! i) [50..<250]"
    if "chat_log rooms code = []" "length (chat_sent code (snd (run rooms evs))) = 250"
  proof -
    have "chat_log (fst (run rooms evs)) code = drop 50 (chat_sent code (snd (run rooms evs)))"
      using eq that by (simp add: slice_last_def)
    then show ?thesis
      using drop_as_range [of 50 "chat_sent code (snd (run rooms evs))"] that(2) by simp
  qed
  show ?thesis using eq len scen by blast
qed

lemma clean_hello: "trim (ascii ''hello'') = ascii ''hello''"
  by (simp add: trim_def is_ws_def ascii_def)

lemma short_hello: "take 500 (ascii ''hello'') = ascii ''hello''"
  by (simp add: ascii_def)

lemma hello_handled:
  "chat_message (sample_env\<lparr>now := (\<lambda>p. int i)\<rparr>) rooms ann (JStr (ascii ''hello'')) =
     \<lparr>out_rooms = (snd (getOrCreateRoom (int i) rooms (ascii ''ABCDEF'')))
                    (ascii ''ABCDEF'' \<mapsto> (fst (getOrCreateRoom (int i) rooms (ascii ''ABCDEF'')))
                        \<lparr>chat := push_chat (hello_message i)
                                   (chat (fst (getOrCreateRoom (int i) rooms (ascii ''ABCDEF''))))\<rparr>),
      out_socket = ann,
      out_emitted = [(WholeRoom (ascii ''ABCDEF''), ChatMessageMsg (hello_message i))],
      out_thrown = None\<rparr>"
  by (simp add: chat_message_def ann_def clean_hello short_hello Let_def case_prod_beta
      make_message_def hello_message_def sample_env_def)

lemma hellos_sent:
  "chat_sent (ascii ''ABCDEF'') (snd (run rooms (map hello xs))) = map hello_message xs"
proof (induction xs arbitrary: rooms)
  case Nil
  show ?case by simp
next
  case (Cons i xs)
  show ?case
    by (simp add: hello_def [of i] hello_handled Let_def case_prod_beta Cons.IH chat_sent_append)
qed

theorem chat_log_last_200_witness:
  "length (chat_log sample_rooms (ascii ''ABCDEF'')) \<le> 200 \<and>
   chat_log sample_rooms (ascii ''ABCDEF'') = [] \<and>
   length (chat_sent (ascii ''ABCDEF'') (snd (run sample_rooms (map hello [0..<250])))) = 250 \<and>
   length (chat_log (fst (run sample_rooms (map hello [0..<250]))) (ascii ''ABCDEF'')) \<le> 200 \<and>
   chat_log (fst (run sample_rooms (map hello [0..<250]))) (ascii ''ABCDEF'') =
     map hello_message [50..<250]"
proof -
  have e: "chat_log sample_rooms (ascii ''ABCDEF'') = []"
    by (simp add: chat_log_def sample_registered sample_room_def)
  then have b: "length (chat_log sample_rooms (ascii ''ABCDEF'')) \<le> 200" by simp
  have s: "chat_sent (ascii ''ABCDEF'') (snd (run sample_rooms (map hello [0..<250]))) =
             map hello_message [0..<250]"
    by (rule hellos_sent)
  then have n:
    "length (chat_sent (ascii ''ABCDEF'') (snd (run sample_rooms (map hello [0..<250])))) = 250"
    by simp
  note t = chat_log_last_200 [OF b, of "map hello [0..<250]"]
  have l: "length (chat_log (fst (run sample_rooms (map hello [0..<250]))) (ascii ''ABCDEF'')) \<le> 200"
    using t by (rule conjunct1)
  have "chat_log (fst (run sample_rooms (map hello [0..<250]))) (ascii ''ABCDEF'') =
          drop 50 (chat_sent (ascii ''ABCDEF'') (snd (run sample_rooms (map hello [0..<250]))))"
    using t e n by blast
  then have d: "chat_log (fst (run sample_rooms (map hello [0..<250]))) (ascii ''ABCDEF'') =
                  map hello_message [50..<250]"
    unfolding s by (simp add: drop_map)
  show ?thesis using b e n l d by blast
qed


text \<open>
  An accepted chat event broadcasts exactly one message to the sender's room: the trimmed
  text, cut to 500 characters, under the sender's name.
\<close>

lemma accepted_chat_broadcast:
  assumes "data_roomCode sock = Some code" and "code \<noteq> []"
    and "data_username sock = Some name" and "name \<noteq> []" and "trim s \<noteq> []"
  shows "out_emitted (handle E rooms sock (ChatMessage (Some (JStr s)))) =
           [(WholeRoom code, ChatMessageMsg (make_message E name s))] \<and>
         msg_text (make_message E name s) = take 500 (trim s) \<and>
         length (msg_text (make_message E name s)) \<le> 500"
  using assms by (simp add: chat_message_def Let_def case_prod_beta make_message_def)

end
